theory Spec2Isabelle
  imports Complex_Main "HOL-Library.Sublist"
begin

section \<open>Python strings\<close>

text \<open>
  A Python \<^verbatim>\<open>str\<close> is a sequence of Unicode code points, so a string is modelled as a
  list of code points (natural numbers), not as a list of bytes. The three string
  methods the handler uses are \<^verbatim>\<open>str.split()\<close>, \<^verbatim>\<open>str.strip()\<close> (both without arguments:
  they cut at the characters for which \<^verbatim>\<open>str.isspace\<close> holds) and \<^verbatim>\<open>str.splitlines()\<close>
  (which cuts at the line boundaries of the Python documentation).
\<close>

type_synonym codepoint = nat
type_synonym py_str = "codepoint list"

definition str :: "string \<Rightarrow> py_str" where
  "str s = map of_char s"

definition is_space :: "codepoint \<Rightarrow> bool" where
  "is_space c \<longleftrightarrow>
     c = 9 \<or> c = 10 \<or> c = 11 \<or> c = 12 \<or> c = 13 \<or>
     c = 28 \<or> c = 29 \<or> c = 30 \<or> c = 31 \<or> c = 32 \<or>
     c = 133 \<or> c = 160 \<or> c = 5760 \<or> (8192 \<le> c \<and> c \<le> 8202) \<or>
     c = 8232 \<or> c = 8233 \<or> c = 8239 \<or> c = 8287 \<or> c = 12288"

definition is_linebreak :: "codepoint \<Rightarrow> bool" where
  "is_linebreak c \<longleftrightarrow>
     c = 10 \<or> c = 11 \<or> c = 12 \<or> c = 13 \<or> c = 28 \<or> c = 29 \<or> c = 30 \<or>
     c = 133 \<or> c = 8232 \<or> c = 8233"

text \<open>\<^verbatim>\<open>s.strip()\<close>: leading and trailing whitespace removed.\<close>

definition strip :: "py_str \<Rightarrow> py_str" where
  "strip s = rev (dropWhile is_space (rev (dropWhile is_space s)))"

text \<open>
  \<^verbatim>\<open>s.split()\<close>: skip whitespace; a word starts at the first other character and runs
  to the next whitespace or the end; repeat. No empty word is produced.
\<close>

function py_split :: "py_str \<Rightarrow> py_str list" where
  "py_split [] = []"
| "py_split (c # s) =
     (if is_space c then py_split s
      else (c # takeWhile (\<lambda>x. \<not> is_space x) s)
           # py_split (dropWhile (\<lambda>x. \<not> is_space x) s))"
  by pat_completeness auto
termination
  by (relation "measure length") (auto simp: less_Suc_eq_le length_dropWhile_le)

text \<open>
  \<^verbatim>\<open>s.splitlines()\<close>: a line runs to the next line boundary or to the end of the
  string; the boundary is dropped, a carriage return followed by a line feed is one
  boundary, and nothing follows a boundary that ends the string.
\<close>

fun skip_eol :: "py_str \<Rightarrow> py_str" where
  "skip_eol [] = []"
| "skip_eol [c] = []"
| "skip_eol (c # d # s) = (if c = 13 \<and> d = 10 then s else d # s)"

function splitlines :: "py_str \<Rightarrow> py_str list" where
  "splitlines [] = []"
| "splitlines (c # s) =
     takeWhile (\<lambda>x. \<not> is_linebreak x) (c # s)
     # splitlines (skip_eol (dropWhile (\<lambda>x. \<not> is_linebreak x) (c # s)))"
  by pat_completeness auto
termination
proof (relation "measure length")
  show "wf (measure length)" by simp
next
  fix c :: codepoint and s :: py_str
  let ?r = "dropWhile (\<lambda>x. \<not> is_linebreak x) (c # s)"
  have "length (skip_eol ?r) < length (c # s)"
  proof (cases ?r)
    case Nil
    then show ?thesis by simp
  next
    case (Cons d r)
    have "length (skip_eol (d # r)) < length (d # r)"
      by (cases r) auto
    moreover have "length ?r \<le> length (c # s)"
      by (rule length_dropWhile_le)
    ultimately show ?thesis using Cons by simp
  qed
  then show "(skip_eol ?r, c # s) \<in> measure length" by simp
qed

section \<open>The word-wrap loop of \<^verbatim>\<open>handle_message\<close>\<close>

text \<open>
  Lines 114 to 126 of \<^verbatim>\<open>screwie.py\<close>. The measurer is \<^verbatim>\<open>draw.textlength\<close> under the loaded
  font, a function of the text alone; it returns a float, which is compared exactly
  with the integer budget \<^verbatim>\<open>width - 2 * padding\<close>. The state of the inner loop is the
  list \<^verbatim>\<open>lines\<close> and the accumulator \<^verbatim>\<open>current_line\<close>.
\<close>

type_synonym measurer = "py_str \<Rightarrow> real"

fun wrap_words :: "measurer \<Rightarrow> int \<Rightarrow> py_str list \<Rightarrow> py_str \<Rightarrow> py_str list \<Rightarrow> py_str list \<times> py_str" where
  "wrap_words m b lines current_line [] = (lines, current_line)"
| "wrap_words m b lines current_line (word # words) =
     (let test_line = strip (current_line @ [32] @ word) in
      if m test_line \<le> of_int b
      then wrap_words m b lines test_line words
      else wrap_words m b (lines @ [current_line]) word words)"

text \<open>The body of the outer loop for one source line, ending with \<^verbatim>\<open>lines.append(current_line)\<close>.\<close>

definition wrap_source_line :: "measurer \<Rightarrow> int \<Rightarrow> py_str list \<Rightarrow> py_str \<Rightarrow> py_str list" where
  "wrap_source_line m b lines line =
     (case wrap_words m b lines [] (py_split line) of
        (lines', current_line) \<Rightarrow> lines' @ [current_line])"

fun wrap_loop :: "measurer \<Rightarrow> int \<Rightarrow> py_str list \<Rightarrow> py_str list \<Rightarrow> py_str list" where
  "wrap_loop m b lines [] = lines"
| "wrap_loop m b lines (line # rest) = wrap_loop m b (wrap_source_line m b lines line) rest"

definition wrap_text :: "measurer \<Rightarrow> int \<Rightarrow> py_str \<Rightarrow> py_str list" where
  "wrap_text m b text = wrap_loop m b [] (splitlines text)"

text \<open>The lines one source line contributes: the loop body run on an empty \<^verbatim>\<open>lines\<close>.\<close>

definition emitted :: "measurer \<Rightarrow> int \<Rightarrow> py_str \<Rightarrow> py_str list" where
  "emitted m b line = wrap_source_line m b [] line"

section \<open>Access control\<close>

text \<open>
  Lines 59 to 64: the allowed users are the whitespace-separated words of the
  option \<^verbatim>\<open>allowed_users\<close> (the empty string when the option is absent), each converted
  by \<^verbatim>\<open>int\<close>, which is a parameter here and may raise.
\<close>

datatype py_exception = TypeError | KeyError | ValueError | OSError | ZoneInfoNotFoundError

fun int_each :: "(py_str \<Rightarrow> py_exception + int) \<Rightarrow> py_str list \<Rightarrow> py_exception + int list" where
  "int_each py_int [] = Inr []"
| "int_each py_int (w # ws) =
     (case py_int w of
        Inl e \<Rightarrow> Inl e
      | Inr n \<Rightarrow> (case int_each py_int ws of Inl e \<Rightarrow> Inl e | Inr ns \<Rightarrow> Inr (n # ns)))"

definition load_allowed_users :: "(py_str \<Rightarrow> py_exception + int) \<Rightarrow> py_str option \<Rightarrow> py_exception + int list" where
  "load_allowed_users py_int opt =
     int_each py_int (py_split (case opt of None \<Rightarrow> [] | Some s \<Rightarrow> s))"

text \<open>Python's \<^verbatim>\<open>x in xs\<close> on a list: the elements are compared with \<^verbatim>\<open>x\<close> in turn.\<close>

fun py_in :: "int \<Rightarrow> int list \<Rightarrow> bool" where
  "py_in x [] = False"
| "py_in x (y # ys) = (if x = y then True else py_in x ys)"

text \<open>The test \<^verbatim>\<open>update.effective_user.id in allowed_users\<close> of lines 72 and 83.\<close>

definition is_authorized :: "int list \<Rightarrow> int \<Rightarrow> bool" where
  "is_authorized allowed sender_id = py_in sender_id allowed"

section \<open>The handlers\<close>

text \<open>
  What a handler does to the world is recorded as a trace of events, in the order of
  the calls; a handler returns the exception that leaves it, if any, with the trace.
  The transport, the configuration file, the font, the time zone data base, the
  file system and the operating system are a record of what they answer.
\<close>

datatype level = INFO | WARNING | ERROR

datatype event =
    Log level string
  | ReplyText py_str
  | ImageNew int int
  | DrawText int int py_str
  | TempFileOpen py_str
  | ImageSave py_str
  | Popen "py_str list"
  | TempFileClose py_str bool

text \<open>
  \<open>ImageNew w h\<close> is \<^verbatim>\<open>PIL.Image.new\<close> with size \<open>(w, h)\<close>; \<open>DrawText x y s\<close> is \<^verbatim>\<open>draw.text\<close> at
  \<open>(x, y)\<close>; \<open>TempFileClose name deleted\<close> is the end of the \<^verbatim>\<open>with\<close> block of the temporary
  file, which deletes the file when it was opened with \<^verbatim>\<open>delete=True\<close>.
\<close>

record font =
  textlength :: measurer
  getbbox_A :: "int \<times> int \<times> int \<times> int"

record update =
  effective_user_id :: int
  effective_user_username :: "py_str option"
  message_date :: int
  message_text :: "py_str option"

record env =
  allowed_users :: "int list"
  truetype :: "py_exception + font"
  zone_info_error :: "py_exception option"
  isoformat :: "int \<Rightarrow> py_str"
  delete_temp_files :: "(py_exception + bool) option"
  printer_script :: "py_str option"
  tmp_error :: "py_exception option"
  tmp_name :: py_str
  save_error :: "py_exception option"
  popen_error :: "py_str list \<Rightarrow> py_exception option"

text \<open>
  \<open>truetype\<close> is the answer of \<^verbatim>\<open>PIL.ImageFont.truetype\<close>, \<open>zone_info_error\<close> the exception of
  \<^verbatim>\<open>zoneinfo.ZoneInfo\<close> on the configured time zone, \<open>isoformat\<close> the message date in that
  zone as ISO text, \<open>delete_temp_files\<close> and \<open>printer_script\<close> the options of these names
  (absent: \<open>None\<close>; the first as \<^verbatim>\<open>getboolean\<close> reads it, a boolean or the exception for a
  value that is none), \<open>tmp_error\<close> the exception of \<^verbatim>\<open>NamedTemporaryFile\<close> and \<open>tmp_name\<close> the
  name of the file it makes, \<open>save_error\<close> the exception of \<^verbatim>\<open>img.save\<close>, and \<open>popen_error\<close>
  the exception of \<^verbatim>\<open>subprocess.Popen\<close> on a command. The calls that make a canvas and
  draw on it are taken to succeed.
\<close>

text \<open>
  An \<open>update\<close> is one that carries a user and a message, which both handlers dereference
  without a test; the user name and the text of the message may be absent.
\<close>

definition width :: int where "width = 384"
definition padding :: int where "padding = 8"
definition spacing :: int where "spacing = 8"

text \<open>Lines 67 to 76.\<close>

definition handle_start :: "env \<Rightarrow> update \<Rightarrow> py_exception option \<times> event list" where
  "handle_start env u =
     (if is_authorized (allowed_users env) (effective_user_id u)
      then (None, [Log INFO ''/start'', ReplyText (str ''Welcome!'')])
      else (None, [Log INFO ''/start'', Log WARNING ''Denied'',
                   ReplyText (str ''Sorry, this bot is private.'')]))"

text \<open>Lines 103 to 112: the text to print.\<close>

definition printed_text :: "py_str \<Rightarrow> py_str \<Rightarrow> py_str \<Rightarrow> py_str" where
  "printed_text stamp name body = stamp @ [10] @ name @ [10, 10] @ body"

text \<open>Lines 140 to 148: the drawing loop, \<open>y\<close> advancing by \<^verbatim>\<open>line_height + spacing\<close>.\<close>

fun draw_lines :: "int \<Rightarrow> int \<Rightarrow> py_str list \<Rightarrow> event list" where
  "draw_lines h y [] = []"
| "draw_lines h y (line # lines) = DrawText padding y line # draw_lines h (y + (h + spacing)) lines"

text \<open>Lines 128 to 130: \<^verbatim>\<open>font.getbbox('A')[3] - font.getbbox('A')[1]\<close>.\<close>

definition line_height :: "font \<Rightarrow> int" where
  "line_height f = (case getbbox_A f of (x0, y0, x1, y1) \<Rightarrow> y1 - y0)"

text \<open>Lines 114 to 148: wrapping, the height of the canvas, the canvas and the drawing.\<close>

definition render :: "font \<Rightarrow> py_str \<Rightarrow> event list" where
  "render f text =
     (let lines = wrap_text (textlength f) (width - 2 * padding) text;
          height = (line_height f + spacing) * int (length lines) + 2 * padding
      in ImageNew width height # draw_lines (line_height f) padding lines)"

text \<open>
  Lines 160 to 168: the \<^verbatim>\<open>try\<close> block. A missing \<^verbatim>\<open>printer_script\<close> option raises
  \<^verbatim>\<open>KeyError\<close> inside it; every exception raised inside it is caught and logged.
\<close>

definition launch :: "env \<Rightarrow> event list" where
  "launch env =
     (case printer_script env of
        None \<Rightarrow> [Log ERROR ''Failed to call external program'']
      | Some script \<Rightarrow>
          (let cmd = py_split script @ [tmp_name env] in
           Log INFO ''Calling external program''
           # (case popen_error env cmd of
                None \<Rightarrow> [Popen cmd]
              | Some e \<Rightarrow> [Log ERROR ''Failed to call external program''])))"

text \<open>\<^verbatim>\<open>getboolean(option, fallback=True)\<close>: the fallback stands for an absent option.\<close>

fun getboolean :: "(py_exception + bool) option \<Rightarrow> py_exception + bool" where
  "getboolean None = Inr True"
| "getboolean (Some r) = r"

text \<open>
  Lines 150 to 168: the \<^verbatim>\<open>with\<close> block of the temporary file. \<^verbatim>\<open>img.save\<close> stands outside
  the \<^verbatim>\<open>try\<close> block: its exception leaves the \<^verbatim>\<open>with\<close> block, which closes the file, and
  then the handler.
\<close>

definition save_and_print :: "env \<Rightarrow> py_exception option \<times> event list" where
  "save_and_print env =
     (case getboolean (delete_temp_files env) of
        Inl e \<Rightarrow> (Some e, [])
      | Inr delete \<Rightarrow>
          (case tmp_error env of
             Some e \<Rightarrow> (Some e, [])
           | None \<Rightarrow>
               (case save_error env of
                  Some e \<Rightarrow>
                    (Some e, [TempFileOpen (tmp_name env), TempFileClose (tmp_name env) delete])
                | None \<Rightarrow>
                    (None, [TempFileOpen (tmp_name env), ImageSave (tmp_name env),
                            Log INFO ''Image saved to temporary file'']
                           @ launch env
                           @ [TempFileClose (tmp_name env) delete]))))"

text \<open>
  Lines 78 to 170. \<^verbatim>\<open>if update.message.text\<close> fails for an absent and for an empty text.
  A user without a user name makes the concatenation of line 110 raise \<^verbatim>\<open>TypeError\<close>.
\<close>

definition handle_message :: "env \<Rightarrow> update \<Rightarrow> py_exception option \<times> event list" where
  "handle_message env u =
     (if is_authorized (allowed_users env) (effective_user_id u) then
        (case message_text u of
           None \<Rightarrow> (None, [Log INFO ''message''])
         | Some body \<Rightarrow>
             if body = [] then (None, [Log INFO ''message''])
             else
               (case truetype env of
                  Inl e \<Rightarrow> (Some e, [Log INFO ''message'', Log INFO ''Processing message''])
                | Inr f \<Rightarrow>
                    (let started = [Log INFO ''message'', Log INFO ''Processing message'',
                                    ImageNew width 1] in
                     case zone_info_error env of
                       Some e \<Rightarrow> (Some e, started)
                     | None \<Rightarrow>
                         (case effective_user_username u of
                            None \<Rightarrow> (Some TypeError, started)
                          | Some name \<Rightarrow>
                              (let text = printed_text (isoformat env (message_date u)) name body;
                                   drawn = started @ render f text in
                               case save_and_print env of
                                 (raised, events) \<Rightarrow> (raised, drawn @ events))))))
      else (None, [Log INFO ''message'', Log WARNING ''Denied'']))"

section \<open>Predicates used in the statements\<close>

text \<open>A word: not empty and free of whitespace, as the elements of \<^verbatim>\<open>line.split()\<close> are.\<close>

definition is_word :: "py_str \<Rightarrow> bool" where
  "is_word w \<longleftrightarrow> w \<noteq> [] \<and> (\<forall>c \<in> set w. \<not> is_space c)"

text \<open>A string with no leading and no trailing whitespace.\<close>

definition trimmed :: "py_str \<Rightarrow> bool" where
  "trimmed l \<longleftrightarrow> l = [] \<or> (\<not> is_space (hd l) \<and> \<not> is_space (last l))"

text \<open>
  A measurer under which a text is never shorter than a part of it, as a sum of glyph
  advances is.
\<close>

definition monotone_measure :: "measurer \<Rightarrow> bool" where
  "monotone_measure m \<longleftrightarrow> (\<forall>a s c. m s \<le> m (a @ s @ c))"

text \<open>The measurer of a font in which every character is \<open>k\<close> pixels wide.\<close>

definition fixed_width :: "real \<Rightarrow> measurer" where
  "fixed_width k s = k * real (length s)"

text \<open>What a trace holds: the canvases made, the log at a level, the replies sent, the
  commands launched, the temporary files closed, and the events of the printing pipeline.\<close>

fun canvases :: "event list \<Rightarrow> (int \<times> int) list" where
  "canvases [] = []"
| "canvases (ImageNew w h # es) = (w, h) # canvases es"
| "canvases (e # es) = canvases es"

fun logged :: "level \<Rightarrow> event list \<Rightarrow> string list" where
  "logged l [] = []"
| "logged l (Log l' s # es) = (if l' = l then s # logged l es else logged l es)"
| "logged l (e # es) = logged l es"

fun replies :: "event list \<Rightarrow> py_str list" where
  "replies [] = []"
| "replies (ReplyText s # es) = s # replies es"
| "replies (e # es) = replies es"

fun launched :: "event list \<Rightarrow> py_str list list" where
  "launched [] = []"
| "launched (Popen c # es) = c # launched es"
| "launched (e # es) = launched es"

fun closed_files :: "event list \<Rightarrow> (py_str \<times> bool) list" where
  "closed_files [] = []"
| "closed_files (TempFileClose n d # es) = (n, d) # closed_files es"
| "closed_files (e # es) = closed_files es"

fun pipeline_event :: "event \<Rightarrow> bool" where
  "pipeline_event (Log l s) = False"
| "pipeline_event (ReplyText s) = False"
| "pipeline_event e = True"

text \<open>
  A deployment after the scenarios of the specification: users 123 and 456 allowed, a
  font whose characters are 10 pixels wide, temporary files deleted.
\<close>

definition scenario_font :: font where
  "scenario_font = \<lparr>textlength = fixed_width 10, getbbox_A = (0, 5, 16, 23)\<rparr>"

definition scenario_env :: env where
  "scenario_env = \<lparr>
     allowed_users = [123, 456],
     truetype = Inr scenario_font,
     zone_info_error = None,
     isoformat = (\<lambda>t. str ''2024-05-01T12:00:00+00:00''),
     delete_temp_files = None,
     printer_script = Some (str ''lp -d thermal''),
     tmp_error = None,
     tmp_name = str ''/tmp/tmpab12.png'',
     save_error = None,
     popen_error = (\<lambda>cmd. None)\<rparr>"

definition scenario_update :: update where
  "scenario_update = \<lparr>
     effective_user_id = 123,
     effective_user_username = Some (str ''bob''),
     message_date = 0,
     message_text = Some (str ''Hello world'')\<rparr>"

section \<open>Properties\<close>

subsection \<open>Splitting and stripping\<close>

lemma space_32 [simp]: "is_space 32"
  by (simp add: is_space_def)

lemma py_split_words: "w \<in> set (py_split s) \<Longrightarrow> is_word w"
proof (induction s rule: py_split.induct)
  case 1
  then show ?case by simp
next
  case (2 c s)
  show ?case
  proof (cases "is_space c")
    case True
    with 2 show ?thesis by simp
  next
    case False
    with 2(3) have "w = c # takeWhile (\<lambda>x. \<not> is_space x) s
        \<or> w \<in> set (py_split (dropWhile (\<lambda>x. \<not> is_space x) s))"
      by simp
    then show ?thesis
    proof
      assume "w = c # takeWhile (\<lambda>x. \<not> is_space x) s"
      then show ?thesis using False by (auto simp: is_word_def dest: set_takeWhileD)
    next
      assume "w \<in> set (py_split (dropWhile (\<lambda>x. \<not> is_space x) s))"
      then show ?thesis using 2(2)[OF False] by simp
    qed
  qed
qed

lemma py_split_word_append:
  assumes "is_word w" "is_space c"
  shows "py_split (w @ c # s) = w # py_split s"
proof -
  from assms obtain d w' where w: "w = d # w'" and d: "\<not> is_space d"
    and w': "\<forall>x \<in> set w'. \<not> is_space x"
    by (cases w) (auto simp: is_word_def)
  have "takeWhile (\<lambda>x. \<not> is_space x) (w' @ c # s) = w'"
    using w' assms(2) by (simp add: takeWhile_append2)
  moreover have "dropWhile (\<lambda>x. \<not> is_space x) (w' @ c # s) = c # s"
    using w' assms(2) by (simp add: dropWhile_append2)
  ultimately show ?thesis using w d assms(2) by simp
qed

lemma py_split_word: "is_word w \<Longrightarrow> py_split w = [w]"
proof (cases w)
  case Nil
  then show "is_word w \<Longrightarrow> ?thesis" by (simp add: is_word_def)
next
  case (Cons d w')
  assume "is_word w"
  with Cons have d: "\<not> is_space d" and w': "\<forall>x \<in> set w'. \<not> is_space x"
    by (simp_all add: is_word_def)
  from w' have tw: "takeWhile (\<lambda>x. \<not> is_space x) w' = w'"
    and dw: "dropWhile (\<lambda>x. \<not> is_space x) w' = []"
    by simp_all
  show ?thesis using d by (simp add: Cons tw dw)
qed


lemma py_split_append_space:
  "is_space c \<Longrightarrow> py_split (a @ c # s) = py_split a @ py_split s"
proof (induction a rule: py_split.induct)
  case 1
  then show ?case by simp
next
  case (2 d a)
  show ?case
  proof (cases "is_space d")
    case True
    with 2 show ?thesis by simp
  next
    case False
    let ?P = "\<lambda>x. \<not> is_space x"
    show ?thesis
    proof (cases "\<forall>x \<in> set a. ?P x")
      case True
      then have "is_word (d # a)" using False by (simp add: is_word_def)
      then show ?thesis using py_split_word_append[of "d # a" c s] py_split_word[of "d # a"] 2(3)
        by simp
    next
      case nall: False
      then have t: "takeWhile ?P (a @ c # s) = takeWhile ?P a"
        and dr: "dropWhile ?P (a @ c # s) = dropWhile ?P a @ c # s"
        by (auto simp: takeWhile_append1 dropWhile_append1)
      show ?thesis using 2(2)[OF False 2(3)] False t dr by simp
    qed
  qed
qed

lemma strip_word_suffix:
  assumes "is_word w"
  shows "strip (x @ w) = dropWhile is_space x @ w"
proof -
  from assms have hd: "\<not> is_space (hd w)" and lst: "\<not> is_space (last w)" and ne: "w \<noteq> []"
    by (auto simp: is_word_def)
  have "dropWhile is_space (x @ w) = dropWhile is_space x @ w"
    using hd ne by (cases w) (auto simp: dropWhile_append)
  moreover have "\<not> is_space (hd (rev w))" using lst ne by (simp add: hd_rev)
  then have "dropWhile is_space (rev w @ y) = rev w @ y" for y
    using ne by (cases "rev w") auto
  ultimately show ?thesis by (simp add: strip_def)
qed

subsection \<open>The wrap loop\<close>

lemma wrap_words_lines:
  "wrap_words m b lines cur ws =
     (lines @ fst (wrap_words m b [] cur ws), snd (wrap_words m b [] cur ws))"
proof (induction ws arbitrary: lines cur)
  case Nil
  then show ?case by simp
next
  case (Cons w ws)
  let ?t = "strip (cur @ 32 # w)"
  show ?case
  proof (cases "m ?t \<le> of_int b")
    case True
    then show ?thesis using Cons[of lines ?t] by (simp add: Let_def)
  next
    case False
    then show ?thesis using Cons[of "lines @ [cur]" w] Cons[of "[cur]" w] by (simp add: Let_def)
  qed
qed

lemma wrap_words_append:
  "wrap_words m b lines cur (xs @ ys) =
     (case wrap_words m b lines cur xs of (l, c) \<Rightarrow> wrap_words m b l c ys)"
  by (induction xs arbitrary: lines cur) (simp_all add: Let_def)

lemma wrap_source_line_emitted:
  "wrap_source_line m b lines line = lines @ emitted m b line"
  using wrap_words_lines[of m b lines "[]" "py_split line"]
  by (simp add: wrap_source_line_def emitted_def split: prod.splits)

lemma wrap_loop_concat:
  "wrap_loop m b lines src = lines @ concat (map (emitted m b) src)"
  by (induction src arbitrary: lines) (simp_all add: wrap_source_line_emitted)

lemma wrap_text_concat:
  "wrap_text m b text = concat (map (emitted m b) (splitlines text))"
  by (simp add: wrap_text_def wrap_loop_concat)

lemma test_line_word:
  assumes "trimmed cur" "is_word w"
  shows "strip (cur @ 32 # w) = (if cur = [] then w else cur @ 32 # w)"
proof -
  have "strip ((cur @ [32]) @ w) = dropWhile is_space (cur @ [32]) @ w"
    using assms(2) by (rule strip_word_suffix)
  moreover have "dropWhile is_space (cur @ [32]) = (if cur = [] then [] else cur @ [32])"
    using assms(1) by (cases cur) (auto simp: trimmed_def)
  ultimately show ?thesis by simp
qed

lemma trimmed_word: "is_word w \<Longrightarrow> trimmed w"
  using hd_in_set[of w] last_in_set[of w] by (auto simp: is_word_def trimmed_def)

lemma trimmed_join:
  assumes "trimmed cur" "cur \<noteq> []" "is_word w"
  shows "trimmed (cur @ 32 # w)"
  using assms last_in_set[of w] by (auto simp: trimmed_def is_word_def)

lemma test_line_split:
  assumes "trimmed cur" "is_word w"
  shows "py_split (strip (cur @ 32 # w)) = py_split cur @ [w]"
  using assms py_split_append_space[of 32 cur w]
  by (simp add: test_line_word py_split_word)

lemma test_line_trimmed:
  assumes "trimmed cur" "is_word w"
  shows "trimmed (strip (cur @ 32 # w))"
  using assms by (simp add: test_line_word trimmed_word trimmed_join)

text \<open>What the inner loop keeps: content and trimming.\<close>

lemma wrap_words_content:
  assumes "\<forall>w \<in> set ws. is_word w" "trimmed cur"
  shows "concat (map py_split (fst (wrap_words m b [] cur ws) @ [snd (wrap_words m b [] cur ws)]))
           = py_split cur @ ws
         \<and> (\<forall>l \<in> set (fst (wrap_words m b [] cur ws) @ [snd (wrap_words m b [] cur ws)]). trimmed l)"
  using assms
proof (induction ws arbitrary: cur)
  case Nil
  then show ?case by simp
next
  case (Cons w ws)
  let ?t = "strip (cur @ 32 # w)"
  have w: "is_word w" and ws: "\<forall>w \<in> set ws. is_word w" using Cons.prems(1) by simp_all
  show ?case
  proof (cases "m ?t \<le> of_int b")
    case True
    have "trimmed ?t" using Cons.prems(2) w by (rule test_line_trimmed)
    from Cons.IH[OF ws this] True test_line_split[OF Cons.prems(2) w]
    show ?thesis by (simp add: Let_def)
  next
    case False
    have eq: "wrap_words m b [] cur (w # ws) =
        ([cur] @ fst (wrap_words m b [] w ws), snd (wrap_words m b [] w ws))"
      using False wrap_words_lines[of m b "[cur]" w ws] by (simp add: Let_def)
    from Cons.IH[OF ws trimmed_word[OF w]] Cons.prems(2) py_split_word[OF w]
    show ?thesis unfolding eq by simp
  qed
qed

text \<open>What the inner loop keeps: every line is empty, fits, or is one word.\<close>

lemma wrap_words_width:
  assumes "\<forall>w \<in> set ws. is_word w" "cur = [] \<or> m cur \<le> of_int b \<or> is_word cur"
  shows "\<forall>l \<in> set (fst (wrap_words m b [] cur ws) @ [snd (wrap_words m b [] cur ws)]).
           l = [] \<or> m l \<le> of_int b \<or> is_word l"
  using assms
proof (induction ws arbitrary: cur)
  case Nil
  then show ?case by simp
next
  case (Cons w ws)
  let ?t = "strip (cur @ 32 # w)"
  have w: "is_word w" and ws: "\<forall>w \<in> set ws. is_word w" using Cons.prems(1) by simp_all
  show ?case
  proof (cases "m ?t \<le> of_int b")
    case True
    then have "?t = [] \<or> m ?t \<le> of_int b \<or> is_word ?t" by simp
    from Cons.IH[OF ws this] True show ?thesis by (simp add: Let_def)
  next
    case False
    have eq: "wrap_words m b [] cur (w # ws) =
        ([cur] @ fst (wrap_words m b [] w ws), snd (wrap_words m b [] w ws))"
      using False wrap_words_lines[of m b "[cur]" w ws] by (simp add: Let_def)
    have "w = [] \<or> m w \<le> of_int b \<or> is_word w" using w by simp
    from Cons.IH[OF ws this] Cons.prems(2)
    show ?thesis unfolding eq by simp
  qed
qed

lemma emitted_eq:
  "emitted m b line =
     fst (wrap_words m b [] [] (py_split line)) @ [snd (wrap_words m b [] [] (py_split line))]"
  by (simp add: emitted_def wrap_source_line_def split: prod.splits)

lemma trimmed_Nil: "trimmed []"
  by (simp add: trimmed_def)

lemma overflow_step:
  assumes "monotone_measure m" "is_word w" "of_int b < m w"
  shows "wrap_words m b lines cur (w # ws) = wrap_words m b (lines @ [cur]) w ws"
proof -
  have "strip ((cur @ [32]) @ w) = dropWhile is_space (cur @ [32]) @ w"
    using assms(2) by (rule strip_word_suffix)
  moreover have "m w \<le> m (dropWhile is_space (cur @ [32]) @ w @ [])"
    using assms(1) unfolding monotone_measure_def by blast
  ultimately have "\<not> m (strip (cur @ 32 # w)) \<le> of_int b"
    using assms(3) by simp
  then show ?thesis by (simp add: Let_def)
qed

lemma overflow_next:
  assumes "monotone_measure m" "is_word w" "of_int b < m w" "is_word w2"
  shows "wrap_words m b lines w (w2 # ws) = wrap_words m b (lines @ [w]) w2 ws"
proof -
  have "strip (w @ 32 # w2) = w @ 32 # w2"
    using test_line_word[OF trimmed_word[OF assms(2)] assms(4)] assms(2)
    by (simp add: is_word_def)
  moreover have "m w \<le> m ([] @ w @ (32 # w2))"
    using assms(1) unfolding monotone_measure_def by blast
  ultimately have "\<not> m (strip (w @ 32 # w2)) \<le> of_int b"
    using assms(3) by simp
  then show ?thesis by (simp add: Let_def)
qed

text \<open>
  C2. When the empty text measures within the budget (it measures 0 under a font, and
  the budget of the handler is 368), every line of the wrapped text measures within the
  budget, or is a single word that alone measures more than the budget.
\<close>

theorem wrap_width:
  assumes "m [] \<le> of_int b" "l \<in> set (wrap_text m b text)"
  shows "m l \<le> of_int b \<or> (py_split l = [l] \<and> of_int b < m l)"
proof -
  from assms(2) obtain line where l: "l \<in> set (emitted m b line)"
    by (auto simp: wrap_text_concat)
  have words: "\<forall>w \<in> set (py_split line). is_word w"
    by (simp add: py_split_words)
  from l wrap_words_width[OF words, of "[]" m b]
  have "l = [] \<or> m l \<le> of_int b \<or> is_word l" by (auto simp: emitted_eq)
  then show ?thesis using assms(1) py_split_word[of l] by (cases "m l \<le> of_int b") auto
qed

theorem wrap_width_witness:
  "wrap_text (fixed_width 10) 30 (str ''ab cdefg'') = [str ''ab'', str ''cdefg'']
   \<and> fixed_width 10 [] \<le> of_int 30
   \<and> fixed_width 10 (str ''ab'') \<le> of_int 30
   \<and> py_split (str ''cdefg'') = [str ''cdefg'']
   \<and> of_int 30 < fixed_width 10 (str ''cdefg'')"
proof -
  have ev: "wrap_text (fixed_width 10) 30 (str ''ab cdefg'') = [str ''ab'', str ''cdefg'']"
    by (simp add: wrap_text_def wrap_source_line_def str_def is_linebreak_def is_space_def
        strip_def fixed_width_def Let_def)
  have h: "fixed_width 10 [] \<le> of_int 30" by (simp add: fixed_width_def)
  have "str ''cdefg'' \<in> set (wrap_text (fixed_width 10) 30 (str ''ab cdefg''))"
    using ev by simp
  from wrap_width[OF h this] ev h show ?thesis
    by (simp add: fixed_width_def str_def)
qed

text \<open>
  C6. Under a monotone measurer, a word of a source line that alone measures more than
  the budget makes the loop emit the accumulator reached before it as a finished line
  (empty or not), and the next emitted line is that word, whole and alone.
\<close>

theorem overflow_word_own_line:
  assumes "monotone_measure m" "py_split line = pre @ w # post" "of_int b < m w"
  shows "\<exists>rest. emitted m b line =
           fst (wrap_words m b [] [] pre) @ [snd (wrap_words m b [] [] pre), w] @ rest"
proof -
  obtain l0 c0 where pre: "wrap_words m b [] [] pre = (l0, c0)"
    by (cases "wrap_words m b [] [] pre")
  have words: "\<forall>x \<in> set (py_split line). is_word x"
    by (simp add: py_split_words)
  then have w: "is_word w" using assms(2) by simp
  have run: "wrap_words m b [] [] (py_split line) = wrap_words m b (l0 @ [c0]) w post"
    using pre overflow_step[OF assms(1) w assms(3)]
    by (simp add: assms(2) wrap_words_append)
  show ?thesis
  proof (cases post)
    case Nil
    then show ?thesis using run pre by (simp add: emitted_eq)
  next
    case (Cons w2 post')
    then have "is_word w2" using words assms(2) by simp
    then have "wrap_words m b [] [] (py_split line) = wrap_words m b (l0 @ [c0, w]) w2 post'"
      using run Cons overflow_next[OF assms(1) w assms(3)] by simp
    then show ?thesis
      using pre wrap_words_lines[of m b "l0 @ [c0, w]" w2 post'] by (simp add: emitted_eq)
  qed
qed

theorem overflow_word_own_line_witness:
  "monotone_measure (fixed_width 10)
   \<and> py_split (str ''ab cdefg hi'') = [str ''ab''] @ str ''cdefg'' # [str ''hi'']
   \<and> py_split (str ''cdefg hi'') = [] @ str ''cdefg'' # [str ''hi'']
   \<and> of_int 30 < fixed_width 10 (str ''cdefg'')
   \<and> wrap_words (fixed_width 10) 30 [] [] [str ''ab''] = ([], str ''ab'')
   \<and> (\<exists>rest. emitted (fixed_width 10) 30 (str ''ab cdefg hi'') = [str ''ab'', str ''cdefg''] @ rest)
   \<and> (\<exists>rest. emitted (fixed_width 10) 30 (str ''cdefg hi'') = [[], str ''cdefg''] @ rest)"
proof -
  have h1: "monotone_measure (fixed_width 10)"
    by (simp add: monotone_measure_def fixed_width_def)
  have h2: "py_split (str ''ab cdefg hi'') = [str ''ab''] @ str ''cdefg'' # [str ''hi'']"
    and h2': "py_split (str ''cdefg hi'') = [] @ str ''cdefg'' # [str ''hi'']"
    by (simp_all add: str_def is_space_def)
  have h3: "of_int 30 < fixed_width 10 (str ''cdefg'')"
    by (simp add: fixed_width_def str_def)
  have ev: "wrap_words (fixed_width 10) 30 [] [] [str ''ab''] = ([], str ''ab'')"
    by (simp add: str_def is_space_def strip_def fixed_width_def Let_def)
  from overflow_word_own_line[OF h1 h2 h3] overflow_word_own_line[OF h1 h2' h3] h1 h2 h2' h3 ev
  show ?thesis by simp
qed

text \<open>
  C7. Every source line adds at least one line to \<^verbatim>\<open>lines\<close>, an empty source line adds
  exactly one empty line, and so the wrapped text has at least as many lines as the
  source text.
\<close>

theorem source_line_emits:
  "length lines < length (wrap_source_line m b lines line)
   \<and> wrap_source_line m b lines [] = lines @ [[]]
   \<and> length (splitlines text) \<le> length (wrap_text m b text)"
proof -
  have ne: "1 \<le> length (emitted m b l)" for l
    by (simp add: emitted_eq)
  have "length src \<le> length (concat (map (emitted m b) src))" for src
  proof (induction src)
    case Nil
    then show ?case by simp
  next
    case (Cons l src)
    then show ?case using ne[of l] by simp
  qed
  then show ?thesis
    using ne[of line] by (simp add: wrap_source_line_emitted wrap_text_concat emitted_eq)
qed

text \<open>
  C10. The words of the lines emitted for a source line, in order, are the words of the
  source line, and no emitted line starts or ends with whitespace; the same holds for
  the whole text.
\<close>

theorem wrap_preserves_words:
  "concat (map py_split (emitted m b line)) = py_split line
   \<and> (\<forall>l \<in> set (emitted m b line). trimmed l)
   \<and> concat (map py_split (wrap_text m b text)) = concat (map py_split (splitlines text))
   \<and> (\<forall>l \<in> set (wrap_text m b text). trimmed l)"
proof -
  have one: "concat (map py_split (emitted m b l)) = py_split l
      \<and> (\<forall>x \<in> set (emitted m b l). trimmed x)" for l
    using wrap_words_content[of "py_split l" "[]" m b]
    by (simp add: py_split_words trimmed_Nil emitted_eq)
  have "concat (map py_split (concat (map (emitted m b) src))) = concat (map py_split src)" for src
    by (induction src) (simp_all add: one)
  then show ?thesis using one by (auto simp: wrap_text_concat)
qed

theorem wrap_preserves_words_witness:
  "emitted (fixed_width 10) 30 (str ''  ab   cdefg hi '') = [str ''ab'', str ''cdefg'', str ''hi'']
   \<and> py_split (str ''  ab   cdefg hi '') = [str ''ab'', str ''cdefg'', str ''hi'']
   \<and> concat (map py_split [str ''ab'', str ''cdefg'', str ''hi'']) = [str ''ab'', str ''cdefg'', str ''hi'']
   \<and> trimmed (str ''ab'') \<and> trimmed (str ''cdefg'') \<and> trimmed (str ''hi'')"
proof -
  have ev: "emitted (fixed_width 10) 30 (str ''  ab   cdefg hi '') = [str ''ab'', str ''cdefg'', str ''hi'']"
    by (simp add: emitted_def wrap_source_line_def str_def is_space_def strip_def fixed_width_def Let_def)
  have sp: "py_split (str ''  ab   cdefg hi '') = [str ''ab'', str ''cdefg'', str ''hi'']"
    by (simp add: str_def is_space_def)
  from wrap_preserves_words[of "fixed_width 10" 30 "str ''  ab   cdefg hi ''"] ev sp
  show ?thesis by simp
qed

subsection \<open>Access control\<close>

lemma py_in_set: "py_in x ys = (x \<in> set ys)"
  by (induction ys) auto

text \<open>
  C4. The authorization test holds for a sender id exactly when the id is listed among
  the allowed users; with an empty list it fails for every id, and an absent or empty
  \<^verbatim>\<open>allowed_users\<close> option gives the empty list.
\<close>

theorem access_gate:
  "is_authorized allowed sender_id = (sender_id \<in> set allowed)
   \<and> is_authorized [] sender_id = False
   \<and> load_allowed_users py_int None = Inr []
   \<and> load_allowed_users py_int (Some []) = Inr []"
  by (simp add: is_authorized_def py_in_set load_allowed_users_def)

subsection \<open>The handlers\<close>

lemma handle_message_rendered:
  assumes "is_authorized (allowed_users env) (effective_user_id u)"
    and "message_text u = Some body" and "body \<noteq> []"
    and "truetype env = Inr f" and "zone_info_error env = None"
    and "effective_user_username u = Some name"
  shows "handle_message env u =
     (fst (save_and_print env),
      [Log INFO ''message'', Log INFO ''Processing message'', ImageNew width 1]
      @ render f (printed_text (isoformat env (message_date u)) name body)
      @ snd (save_and_print env))"
  using assms by (simp add: handle_message_def Let_def split: prod.splits)

lemma canvases_append: "canvases (xs @ ys) = canvases xs @ canvases ys"
  by (induction xs rule: canvases.induct) simp_all

lemma logged_append: "logged l (xs @ ys) = logged l xs @ logged l ys"
  by (induction l xs rule: logged.induct) simp_all

lemma replies_append: "replies (xs @ ys) = replies xs @ replies ys"
  by (induction xs rule: replies.induct) simp_all

lemma launched_append: "launched (xs @ ys) = launched xs @ launched ys"
  by (induction xs rule: launched.induct) simp_all

lemma closed_files_append: "closed_files (xs @ ys) = closed_files xs @ closed_files ys"
  by (induction xs rule: closed_files.induct) simp_all

lemmas trace_append =
  canvases_append logged_append replies_append launched_append closed_files_append

lemma draw_lines_trace:
  "canvases (draw_lines h y ls) = []" "logged l (draw_lines h y ls) = []"
  "replies (draw_lines h y ls) = []" "launched (draw_lines h y ls) = []"
  "closed_files (draw_lines h y ls) = []"
  by (induction ls arbitrary: y) simp_all

lemma render_trace:
  "logged l (render f t) = []" "replies (render f t) = []"
  "launched (render f t) = []" "closed_files (render f t) = []"
  by (simp_all add: render_def Let_def draw_lines_trace)

lemma canvases_save_and_print: "canvases (snd (save_and_print env)) = []"
  by (simp add: save_and_print_def launch_def Let_def trace_append split: option.splits sum.splits)

lemma scenario_reaches_render:
  "is_authorized (allowed_users scenario_env) (effective_user_id scenario_update)"
  "message_text scenario_update = Some (str ''Hello world'')" "str ''Hello world'' \<noteq> []"
  "truetype scenario_env = Inr scenario_font" "zone_info_error scenario_env = None"
  "effective_user_username scenario_update = Some (str ''bob'')"
  by (simp_all add: scenario_env_def scenario_update_def is_authorized_def str_def)

lemma scenario_wrap:
  "wrap_text (fixed_width 10) 368 (printed_text (str ''2024-05-01T12:00:00+00:00'') (str ''bob'') (str ''Hello world''))
   = [str ''2024-05-01T12:00:00+00:00'', str ''bob'', [], str ''Hello world'']"
  by (simp add: wrap_text_def wrap_source_line_def printed_text_def str_def is_linebreak_def
      is_space_def strip_def fixed_width_def Let_def)

lemma save_fails:
  assumes "getboolean (delete_temp_files env) = Inr delete"
    and "tmp_error env = None" and "save_error env = Some e"
  shows "save_and_print env =
     (Some e, [TempFileOpen (tmp_name env), TempFileClose (tmp_name env) delete])"
  using assms by (simp add: save_and_print_def)

lemma launch_fails:
  assumes "getboolean (delete_temp_files env) = Inr delete"
    and "tmp_error env = None" and "save_error env = None"
    and "printer_script env = Some script"
    and "popen_error env (py_split script @ [tmp_name env]) = Some e"
  shows "save_and_print env =
     (None, [TempFileOpen (tmp_name env), ImageSave (tmp_name env),
             Log INFO ''Image saved to temporary file'',
             Log INFO ''Calling external program'',
             Log ERROR ''Failed to call external program'',
             TempFileClose (tmp_name env) delete])"
  using assms by (simp add: save_and_print_def launch_def)

text \<open>
  C1. The code departs from the claim here. For a sender who is not allowed,
  \<^verbatim>\<open>handle_message\<close> logs the denial and returns with no event of the printing pipeline,
  but it sends no reply; the denial reply is sent by \<^verbatim>\<open>handle_start\<close> only.
\<close>

theorem denied_message_gets_no_reply:
  assumes "\<not> is_authorized (allowed_users env) (effective_user_id u)"
  shows "handle_message env u = (None, [Log INFO ''message'', Log WARNING ''Denied''])
     \<and> replies (snd (handle_message env u)) = []
     \<and> filter pipeline_event (snd (handle_message env u)) = []
     \<and> replies (snd (handle_start env u)) = [str ''Sorry, this bot is private.'']"
  using assms by (simp add: handle_message_def handle_start_def)

theorem denied_message_gets_no_reply_witness:
  "\<not> is_authorized (allowed_users scenario_env) (effective_user_id (scenario_update\<lparr>effective_user_id := 999\<rparr>))
   \<and> handle_message scenario_env (scenario_update\<lparr>effective_user_id := 999\<rparr>)
       = (None, [Log INFO ''message'', Log WARNING ''Denied''])
   \<and> replies (snd (handle_message scenario_env (scenario_update\<lparr>effective_user_id := 999\<rparr>))) = []
   \<and> replies (snd (handle_start scenario_env (scenario_update\<lparr>effective_user_id := 999\<rparr>)))
       = [str ''Sorry, this bot is private.'']"
proof -
  let ?u = "scenario_update\<lparr>effective_user_id := 999\<rparr>"
  have h: "\<not> is_authorized (allowed_users scenario_env) (effective_user_id ?u)"
    by (simp add: scenario_env_def is_authorized_def)
  from denied_message_gets_no_reply[OF h] h show ?thesis by simp
qed

text \<open>
  C3. When the handler reaches the rendering, the canvases it makes are the one-pixel
  canvas used for measuring and the canvas of the message, whose height is
  \<open>(line_height + spacing) * line_count + 2 * padding\<close> for the lines of the wrapped text.
\<close>

theorem canvas_height:
  assumes "is_authorized (allowed_users env) (effective_user_id u)"
    and "message_text u = Some body" and "body \<noteq> []"
    and "truetype env = Inr f" and "zone_info_error env = None"
    and "effective_user_username u = Some name"
  shows "canvases (snd (handle_message env u)) =
           [(width, 1),
            (width, (line_height f + spacing)
                    * int (length (wrap_text (textlength f) (width - 2 * padding)
                                     (printed_text (isoformat env (message_date u)) name body)))
                    + 2 * padding)]"
  by (simp add: handle_message_rendered[OF assms] canvases_append canvases_save_and_print
      render_def Let_def draw_lines_trace)

theorem canvas_height_witness:
  "is_authorized (allowed_users scenario_env) (effective_user_id scenario_update)
   \<and> message_text scenario_update = Some (str ''Hello world'') \<and> str ''Hello world'' \<noteq> []
   \<and> truetype scenario_env = Inr scenario_font \<and> zone_info_error scenario_env = None
   \<and> effective_user_username scenario_update = Some (str ''bob'')
   \<and> canvases (snd (handle_message scenario_env scenario_update)) = [(384, 1), (384, 120)]"
proof -
  have "textlength scenario_font = fixed_width 10" "line_height scenario_font = 18"
    "isoformat scenario_env (message_date scenario_update) = str ''2024-05-01T12:00:00+00:00''"
    by (simp_all add: scenario_font_def scenario_env_def line_height_def)
  with canvas_height[OF scenario_reaches_render] scenario_wrap scenario_reaches_render
  show ?thesis by (simp add: width_def padding_def spacing_def)
qed

text \<open>
  C5. A message whose text is absent or empty makes the handler return with no canvas,
  no temporary file and no command; for an allowed sender the first log line is all
  that happens (for another sender the denial is logged as well).
\<close>

theorem empty_body_skipped:
  assumes "message_text u = None \<or> message_text u = Some []"
  shows "fst (handle_message env u) = None
     \<and> filter pipeline_event (snd (handle_message env u)) = []
     \<and> (is_authorized (allowed_users env) (effective_user_id u)
          \<longrightarrow> snd (handle_message env u) = [Log INFO ''message''])"
  using assms by (auto simp: handle_message_def)

theorem empty_body_skipped_witness:
  "message_text (scenario_update\<lparr>message_text := Some []\<rparr>) = Some []
   \<and> is_authorized (allowed_users scenario_env) (effective_user_id (scenario_update\<lparr>message_text := Some []\<rparr>))
   \<and> handle_message scenario_env (scenario_update\<lparr>message_text := Some []\<rparr>) = (None, [Log INFO ''message''])
   \<and> filter pipeline_event (snd (handle_message scenario_env (scenario_update\<lparr>message_text := Some []\<rparr>))) = []"
proof -
  let ?u = "scenario_update\<lparr>message_text := Some []\<rparr>"
  have h: "message_text ?u = None \<or> message_text ?u = Some []" by simp
  have a: "is_authorized (allowed_users scenario_env) (effective_user_id ?u)"
    by (simp add: scenario_env_def scenario_update_def is_authorized_def)
  from empty_body_skipped[OF h, of scenario_env] a show ?thesis
    by (cases "handle_message scenario_env ?u") simp
qed

text \<open>
  C8, as amended. When \<^verbatim>\<open>img.save\<close> fails, the temporary file is still closed (and deleted
  when it was opened with \<^verbatim>\<open>delete=True\<close>, the value of \<^verbatim>\<open>delete_temp_files\<close>) and no command is launched, but the exception is
  neither caught nor logged by the handler: it leaves the handler.
\<close>

theorem save_failure_propagates:
  assumes "is_authorized (allowed_users env) (effective_user_id u)"
    and "message_text u = Some body" and "body \<noteq> []"
    and "truetype env = Inr f" and "zone_info_error env = None"
    and "effective_user_username u = Some name"
    and "getboolean (delete_temp_files env) = Inr delete"
    and "tmp_error env = None" and "save_error env = Some e"
  shows "fst (handle_message env u) = Some e
     \<and> closed_files (snd (handle_message env u)) = [(tmp_name env, delete)]
     \<and> logged ERROR (snd (handle_message env u)) = []
     \<and> launched (snd (handle_message env u)) = []"
  by (simp add: handle_message_rendered[OF assms(1-6)] save_fails[OF assms(7-9)]
      trace_append render_trace)

theorem save_failure_propagates_witness:
  "is_authorized (allowed_users (scenario_env\<lparr>save_error := Some OSError\<rparr>)) (effective_user_id scenario_update)
   \<and> message_text scenario_update = Some (str ''Hello world'') \<and> str ''Hello world'' \<noteq> []
   \<and> truetype (scenario_env\<lparr>save_error := Some OSError\<rparr>) = Inr scenario_font
   \<and> zone_info_error (scenario_env\<lparr>save_error := Some OSError\<rparr>) = None
   \<and> effective_user_username scenario_update = Some (str ''bob'')
   \<and> getboolean (delete_temp_files (scenario_env\<lparr>save_error := Some OSError\<rparr>)) = Inr True
   \<and> tmp_error (scenario_env\<lparr>save_error := Some OSError\<rparr>) = None
   \<and> save_error (scenario_env\<lparr>save_error := Some OSError\<rparr>) = Some OSError
   \<and> fst (handle_message (scenario_env\<lparr>save_error := Some OSError\<rparr>) scenario_update) = Some OSError
   \<and> closed_files (snd (handle_message (scenario_env\<lparr>save_error := Some OSError\<rparr>) scenario_update))
       = [(str ''/tmp/tmpab12.png'', True)]
   \<and> launched (snd (handle_message (scenario_env\<lparr>save_error := Some OSError\<rparr>) scenario_update)) = []"
proof -
  let ?env = "scenario_env\<lparr>save_error := Some OSError\<rparr>"
  have h: "is_authorized (allowed_users ?env) (effective_user_id scenario_update)"
    "message_text scenario_update = Some (str ''Hello world'')" "str ''Hello world'' \<noteq> []"
    "truetype ?env = Inr scenario_font" "zone_info_error ?env = None"
    "effective_user_username scenario_update = Some (str ''bob'')"
    "getboolean (delete_temp_files ?env) = Inr True"
    "tmp_error ?env = None" "save_error ?env = Some OSError"
    by (simp_all add: scenario_env_def scenario_update_def is_authorized_def str_def)
  have "tmp_name ?env = str ''/tmp/tmpab12.png''"
    by (simp add: scenario_env_def)
  with save_failure_propagates[OF h] h show ?thesis by simp
qed

text \<open>
  C8, as stated, fails: with a failing \<^verbatim>\<open>img.save\<close> the exception leaves the handler and
  nothing is logged as an error.
\<close>

theorem save_failure_counterexample:
  "fst (handle_message (scenario_env\<lparr>save_error := Some OSError\<rparr>) scenario_update) = Some OSError
   \<and> logged ERROR (snd (handle_message (scenario_env\<lparr>save_error := Some OSError\<rparr>) scenario_update)) = []"
proof -
  let ?env = "scenario_env\<lparr>save_error := Some OSError\<rparr>"
  have sp: "save_and_print ?env =
      (Some OSError, [TempFileOpen (tmp_name ?env), TempFileClose (tmp_name ?env) True])"
    by (rule save_fails) (simp_all add: scenario_env_def)
  have "handle_message ?env scenario_update =
     (fst (save_and_print ?env),
      [Log INFO ''message'', Log INFO ''Processing message'', ImageNew width 1]
      @ render scenario_font (printed_text (isoformat ?env (message_date scenario_update))
          (str ''bob'') (str ''Hello world''))
      @ snd (save_and_print ?env))"
    by (rule handle_message_rendered)
      (simp_all add: scenario_env_def scenario_update_def is_authorized_def str_def)
  then show ?thesis by (simp add: sp trace_append render_trace)
qed

text \<open>
  C9. When \<^verbatim>\<open>subprocess.Popen\<close> fails, the failure is logged as an error, the handler
  returns normally, no reply is sent, and the temporary file is closed.
\<close>

theorem launch_failure_recovered:
  assumes "is_authorized (allowed_users env) (effective_user_id u)"
    and "message_text u = Some body" and "body \<noteq> []"
    and "truetype env = Inr f" and "zone_info_error env = None"
    and "effective_user_username u = Some name"
    and "getboolean (delete_temp_files env) = Inr delete"
    and "tmp_error env = None" and "save_error env = None"
    and "printer_script env = Some script"
    and "popen_error env (py_split script @ [tmp_name env]) = Some e"
  shows "fst (handle_message env u) = None
     \<and> logged ERROR (snd (handle_message env u)) = [''Failed to call external program'']
     \<and> replies (snd (handle_message env u)) = []
     \<and> launched (snd (handle_message env u)) = []
     \<and> closed_files (snd (handle_message env u)) = [(tmp_name env, delete)]"
  by (simp add: handle_message_rendered[OF assms(1-6)] launch_fails[OF assms(7-11)]
      trace_append render_trace)

theorem launch_failure_recovered_witness:
  "is_authorized (allowed_users (scenario_env\<lparr>popen_error := \<lambda>cmd. Some OSError\<rparr>)) (effective_user_id scenario_update)
   \<and> message_text scenario_update = Some (str ''Hello world'') \<and> str ''Hello world'' \<noteq> []
   \<and> truetype (scenario_env\<lparr>popen_error := \<lambda>cmd. Some OSError\<rparr>) = Inr scenario_font
   \<and> zone_info_error (scenario_env\<lparr>popen_error := \<lambda>cmd. Some OSError\<rparr>) = None
   \<and> effective_user_username scenario_update = Some (str ''bob'')
   \<and> getboolean (delete_temp_files (scenario_env\<lparr>popen_error := \<lambda>cmd. Some OSError\<rparr>)) = Inr True
   \<and> tmp_error (scenario_env\<lparr>popen_error := \<lambda>cmd. Some OSError\<rparr>) = None
   \<and> save_error (scenario_env\<lparr>popen_error := \<lambda>cmd. Some OSError\<rparr>) = None
   \<and> printer_script (scenario_env\<lparr>popen_error := \<lambda>cmd. Some OSError\<rparr>) = Some (str ''lp -d thermal'')
   \<and> fst (handle_message (scenario_env\<lparr>popen_error := \<lambda>cmd. Some OSError\<rparr>) scenario_update) = None
   \<and> logged ERROR (snd (handle_message (scenario_env\<lparr>popen_error := \<lambda>cmd. Some OSError\<rparr>) scenario_update))
       = [''Failed to call external program'']
   \<and> replies (snd (handle_message (scenario_env\<lparr>popen_error := \<lambda>cmd. Some OSError\<rparr>) scenario_update)) = []"
proof -
  let ?env = "scenario_env\<lparr>popen_error := \<lambda>cmd. Some OSError\<rparr>"
  have h: "is_authorized (allowed_users ?env) (effective_user_id scenario_update)"
    "message_text scenario_update = Some (str ''Hello world'')" "str ''Hello world'' \<noteq> []"
    "truetype ?env = Inr scenario_font" "zone_info_error ?env = None"
    "effective_user_username scenario_update = Some (str ''bob'')"
    "getboolean (delete_temp_files ?env) = Inr True"
    "tmp_error ?env = None" "save_error ?env = None"
    "printer_script ?env = Some (str ''lp -d thermal'')"
    "popen_error ?env (py_split (str ''lp -d thermal'') @ [tmp_name ?env]) = Some OSError"
    by (simp_all add: scenario_env_def scenario_update_def is_authorized_def str_def)
  from launch_failure_recovered[OF h] h(1-10) show ?thesis by simp
qed

end
